theory Spec2Isabelle
  imports Complex_Main "HOL-Library.Sublist"
begin

section \<open>WATER: the metrics calculator (backend/metrics_calculator.py)\<close>

text \<open>
  The three adherence metrics (ITAA, HAM, LIM) and the loop that writes one results row
  per stored record, embedded function by function.

  Conventions of the embedding.
  \<^item> A fragment is a markup string that the code hands to \<open>BeautifulSoup(tag, "html.parser")\<close>
    and then only reads through \<open>soup(name)\<close>, \<open>element[key]\<close> and \<open>soup.text\<close>. The parser
    is a library, so a fragment is represented by what the parser returns for it: the
    elements of the parse tree in document order, each with its attribute dictionary,
    and the text of the whole fragment.
  \<^item> Strings are \<open>string\<close>; \<open>str.lower\<close> is modelled on the ASCII letters.
  \<^item> \<open>count / len(tags)\<close> is Python's true division of two integers. It is modelled by the
    exact quotient in \<open>rat\<close>; the float the interpreter produces is that quotient rounded.
  \<^item> Every \<open>raise\<close> is a value \<open>Inl e\<close>; every \<open>try\<close>/\<open>except\<close> is a case distinction
    on that value, in the place where the source has it.
  \<^item> \<open>self.row_data\<close> and the file \<open>results.csv\<close> are passed explicitly.
\<close>

subsection \<open>Exceptions\<close>

datatype py_error = KeyError | IndexError | AttributeError | WebDriverException

subsection \<open>Parsed fragments\<close>

record element =
  tag :: string
  attrs :: "string \<rightharpoonup> string"

record soup =
  soup_text :: string
  elements :: "element list"

text \<open>\<open>soup(name)\<close>, that is \<open>soup.find_all(name)\<close>.\<close>

definition find_all :: "soup \<Rightarrow> string \<Rightarrow> element list" where
  "find_all s n = filter (\<lambda>e. tag e = n) (elements s)"

text \<open>\<open>soup(name)[0]\<close>: IndexError on the empty result list.\<close>

definition first_tag :: "soup \<Rightarrow> string \<Rightarrow> py_error + element" where
  "first_tag s n = (case find_all s n of [] \<Rightarrow> Inl IndexError | e # _ \<Rightarrow> Inr e)"

text \<open>\<open>element[key]\<close>: KeyError when the attribute is absent.\<close>

definition get_attr :: "element \<Rightarrow> string \<Rightarrow> py_error + string" where
  "get_attr e k = (case attrs e k of None \<Rightarrow> Inl KeyError | Some v \<Rightarrow> Inr v)"

text \<open>\<open>soup(name)[0][key]\<close>, evaluated left to right.\<close>

definition tag_attr :: "soup \<Rightarrow> string \<Rightarrow> string \<Rightarrow> py_error + string" where
  "tag_attr s n k = (case first_tag s n of Inl e \<Rightarrow> Inl e | Inr el \<Rightarrow> get_attr el k)"

subsection \<open>String operations\<close>

fun startswith :: "string \<Rightarrow> string \<Rightarrow> bool" where
  "startswith [] s = True"
| "startswith (p # ps) [] = False"
| "startswith (p # ps) (c # cs) = (p = c \<and> startswith ps cs)"

text \<open>\<open>str_in a b\<close> is Python's \<open>a in b\<close> on strings.\<close>

fun str_in :: "string \<Rightarrow> string \<Rightarrow> bool" where
  "str_in a [] = (a = [])"
| "str_in a (c # cs) = (startswith a (c # cs) \<or> str_in a cs)"

definition lower_char :: "char \<Rightarrow> char" where
  "lower_char c =
     (case map_of (zip ''ABCDEFGHIJKLMNOPQRSTUVWXYZ'' ''abcdefghijklmnopqrstuvwxyz'') c of
        None \<Rightarrow> c
      | Some l \<Rightarrow> l)"

definition lower :: "string \<Rightarrow> string" where
  "lower s = map lower_char s"

text \<open>\<open>s.split(" ")\<close>: the pieces between single spaces; never the empty list.\<close>

fun split_space :: "string \<Rightarrow> string list" where
  "split_space [] = [[]]"
| "split_space (c # cs) =
     (if c = CHR '' '' then [] # split_space cs
      else (case split_space cs of [] \<Rightarrow> [[c]] | t # ts \<Rightarrow> (c # t) # ts))"

text \<open>\<open>" ".join(ts)\<close>, the inverse of \<open>split_space\<close>.\<close>

fun join_space :: "string list \<Rightarrow> string" where
  "join_space [] = []"
| "join_space [t] = t"
| "join_space (t # u # ts) = t @ CHR '' '' # join_space (u # ts)"

subsection \<open>The row buffer\<close>

datatype cell = Str string | Num rat

subsection \<open>ITAA: \<open>_calculate_alt_metric\<close>\<close>

text \<open>The condition of the source's \<open>if\<close> on \<open>alt_text\<close>.\<close>

definition alt_check :: "string \<Rightarrow> bool" where
  "alt_check alt_text =
     (lower alt_text \<noteq> ''image'' \<and> alt_text \<noteq> ''''
      \<and> \<not> str_in ''graphic of'' (lower alt_text)
      \<and> \<not> str_in ''image of'' (lower alt_text)
      \<and> \<not> str_in ''picture of'' (lower alt_text)
      \<and> \<not> str_in ''this is an image of'' (lower alt_text))"

text \<open>
  The \<open>for tag in img_tags\<close> loop with its counter. The body of the \<open>try\<close> is
  \<open>tag_attr t ''img'' ''alt''\<close> followed by the check; \<open>except KeyError: pass\<close> keeps the
  counter, any other exception leaves the loop.
\<close>

fun alt_loop :: "soup list \<Rightarrow> nat \<Rightarrow> py_error + nat" where
  "alt_loop [] count_alt = Inr count_alt"
| "alt_loop (t # ts) count_alt =
     (case tag_attr t ''img'' ''alt'' of
        Inr alt_text \<Rightarrow> alt_loop ts (if alt_check alt_text then count_alt + 1 else count_alt)
      | Inl KeyError \<Rightarrow> alt_loop ts count_alt
      | Inl e \<Rightarrow> Inl e)"

definition calculate_alt_metric :: "cell list \<Rightarrow> soup list \<Rightarrow> py_error + cell list" where
  "calculate_alt_metric row_data img_tags =
     (if length img_tags = 0 then Inr (row_data @ [Str ''No Data''])
      else (case alt_loop img_tags 0 of
              Inl e \<Rightarrow> Inl e
            | Inr count_alt \<Rightarrow>
                Inr (row_data @ [Num (rat_of_nat count_alt / rat_of_nat (length img_tags))])))"

subsection \<open>HAM: \<open>_calculate_hyperlinks_metric\<close>\<close>

text \<open>
  The inner loop \<open>for curr_str in soup.text.split(" ")\<close>. The result is the value of
  \<open>flag\<close> when the loop is left; \<open>soup('a')[0]['href']\<close> is evaluated anew for every
  token and is not inside any \<open>try\<close>.
\<close>

fun href_token_loop :: "soup \<Rightarrow> string list \<Rightarrow> py_error + bool" where
  "href_token_loop s [] = Inr False"
| "href_token_loop s (curr_str # strs) =
     (case tag_attr s ''a'' ''href'' of
        Inl e \<Rightarrow> Inl e
      | Inr href \<Rightarrow> if str_in curr_str href then Inr True else href_token_loop s strs)"

text \<open>The loop over \<open>href_elements\<close>; \<open>flag\<close> is False again at the start of each round.\<close>

fun href_loop :: "soup list \<Rightarrow> nat \<Rightarrow> py_error + nat" where
  "href_loop [] count_href = Inr count_href"
| "href_loop (curr_href # hs) count_href =
     (case href_token_loop curr_href (split_space (soup_text curr_href)) of
        Inl e \<Rightarrow> Inl e
      | Inr flag \<Rightarrow> href_loop hs (if flag then count_href + 1 else count_href))"

definition calculate_hyperlinks_metric :: "cell list \<Rightarrow> soup list \<Rightarrow> py_error + cell list" where
  "calculate_hyperlinks_metric row_data href_elements =
     (if length href_elements = 0 then Inr (row_data @ [Str ''No Data''])
      else (case href_loop href_elements 0 of
              Inl e \<Rightarrow> Inl e
            | Inr count_href \<Rightarrow>
                Inr (row_data @
                  [Num (rat_of_nat count_href / rat_of_nat (length href_elements))])))"

subsection \<open>LIM: \<open>_calculate_label_input_metric\<close>\<close>

text \<open>
  The scan of the \<open>elif len(label_tags) == 0\<close> branch. True: an input without \<open>hidden\<close>
  was met, 0.0 is appended and the method returns. False: the loop ran to its end.
\<close>

fun hidden_scan :: "soup list \<Rightarrow> py_error + bool" where
  "hidden_scan [] = Inr False"
| "hidden_scan (curr_input # inputs) =
     (case tag_attr curr_input ''input'' ''hidden'' of
        Inr _ \<Rightarrow> hidden_scan inputs
      | Inl KeyError \<Rightarrow> Inr True
      | Inl e \<Rightarrow> Inl e)"

text \<open>
  The loop \<open>for curr_label in label_tags\<close> for one input. True: the counter was
  incremented and the loop left by \<open>break\<close>. The inner \<open>try\<close> catches the KeyError of the
  input's \<open>hidden\<close>; the KeyError of a label's \<open>for\<close> is not caught here.
\<close>

fun label_loop :: "soup \<Rightarrow> string \<Rightarrow> soup list \<Rightarrow> py_error + bool" where
  "label_loop s input_id [] = Inr False"
| "label_loop s input_id (curr_label # labels) =
     (case tag_attr curr_label ''label'' ''for'' of
        Inl e \<Rightarrow> Inl e
      | Inr for \<Rightarrow>
          if str_in input_id for then
            (case tag_attr s ''input'' ''hidden'' of
               Inr _ \<Rightarrow> label_loop s input_id labels
             | Inl KeyError \<Rightarrow> Inr True
             | Inl e \<Rightarrow> Inl e)
          else label_loop s input_id labels)"

text \<open>The body of the outer \<open>try\<close> for one input: read the id, then scan the labels.\<close>

definition input_body :: "soup list \<Rightarrow> soup \<Rightarrow> py_error + bool" where
  "input_body label_tags curr_input =
     (case tag_attr curr_input ''input'' ''id'' of
        Inl e \<Rightarrow> Inl e
      | Inr input_id \<Rightarrow> label_loop curr_input input_id label_tags)"

text \<open>The loop over \<open>input_tags\<close>; \<open>except KeyError: pass\<close> closes the outer \<open>try\<close>.\<close>

fun input_loop :: "soup list \<Rightarrow> soup list \<Rightarrow> nat \<Rightarrow> py_error + nat" where
  "input_loop label_tags [] count_label_input = Inr count_label_input"
| "input_loop label_tags (curr_input # inputs) count_label_input =
     (case input_body label_tags curr_input of
        Inr counted \<Rightarrow>
          input_loop label_tags inputs
            (if counted then count_label_input + 1 else count_label_input)
      | Inl KeyError \<Rightarrow> input_loop label_tags inputs count_label_input
      | Inl e \<Rightarrow> Inl e)"

text \<open>The part of the method below the two special cases.\<close>

definition label_input_count :: "cell list \<Rightarrow> soup list \<Rightarrow> soup list \<Rightarrow> py_error + cell list" where
  "label_input_count row_data label_tags input_tags =
     (case input_loop label_tags input_tags 0 of
        Inl e \<Rightarrow> Inl e
      | Inr count_label_input \<Rightarrow>
          Inr (row_data @
            [Num (rat_of_nat count_label_input / rat_of_nat (length input_tags))]))"

definition calculate_label_input_metric ::
  "cell list \<Rightarrow> soup list \<Rightarrow> soup list \<Rightarrow> py_error + cell list" where
  "calculate_label_input_metric row_data label_tags input_tags =
     (if length input_tags = 0 then Inr (row_data @ [Str ''No Data''])
      else if length label_tags = 0 then
        (case hidden_scan input_tags of
           Inl e \<Rightarrow> Inl e
         | Inr True \<Rightarrow> Inr (row_data @ [Num 0])
         | Inr False \<Rightarrow> label_input_count row_data label_tags input_tags)
      else label_input_count row_data label_tags input_tags)"

subsection \<open>AP: \<open>_get_accessibility_percent\<close>\<close>

text \<open>
  The lookup drives a browser against a live site. What the method can observe of one
  lookup is collected in a record: \<open>first_source\<close> is the outcome of everything up to the
  first \<open>soup.find("div", ...)\<close> (an exception of the browser, or the text of the div when
  the page has one), \<open>second_source\<close> the outcome of the wait, the second \<open>page_source\<close>
  and the second \<open>find\<close> inside the first handler.
\<close>

record lookup =
  first_source :: "py_error + string option"
  second_source :: "py_error + string option"

text \<open>\<open>soup.find(...).text\<close>: \<open>find\<close> returns None when there is no such div.\<close>

definition div_text :: "string option \<Rightarrow> py_error + string" where
  "div_text d = (case d of None \<Rightarrow> Inl AttributeError | Some t \<Rightarrow> Inr t)"

text \<open>The handler of the first inner \<open>try\<close>; its own \<open>try\<close> ends in \<open>except Exception\<close>.\<close>

definition second_attempt :: "lookup \<Rightarrow> cell list \<Rightarrow> py_error + cell list" where
  "second_attempt l row_data =
     (case second_source l of
        Inl e \<Rightarrow> Inl e
      | Inr d \<Rightarrow>
          (case div_text d of
             Inr temp \<Rightarrow> Inr (row_data @ [Str temp])
           | Inl _ \<Rightarrow> Inr (row_data @ [Str ''-1%''])))"

text \<open>The body of the outermost \<open>try\<close>.\<close>

definition first_attempt :: "lookup \<Rightarrow> cell list \<Rightarrow> py_error + cell list" where
  "first_attempt l row_data =
     (case first_source l of
        Inl e \<Rightarrow> Inl e
      | Inr d \<Rightarrow>
          (case div_text d of
             Inr temp \<Rightarrow> Inr (row_data @ [Str temp])
           | Inl _ \<Rightarrow> second_attempt l row_data))"

text \<open>
  Every exception class of the model derives from \<open>Exception\<close>, so the outermost
  \<open>except Exception\<close> catches each of them. No append precedes a raise inside the body,
  so the handler appends to the buffer as it was on entry.
\<close>

definition get_accessibility_percent ::
  "(string \<Rightarrow> lookup) \<Rightarrow> cell list \<Rightarrow> string \<Rightarrow> py_error + cell list" where
  "get_accessibility_percent web row_data target_url =
     (case first_attempt (web target_url) row_data of
        Inl _ \<Rightarrow> Inr (row_data @ [Str ''-1%''])
      | Inr r \<Rightarrow> Inr r)"

subsection \<open>The aggregator: \<open>calculate_metrics\<close>\<close>

text \<open>What \<open>json.load\<close> returns for one stored file.\<close>

record fragment_record =
  name :: string
  alt_tags :: "soup list"
  href_tags :: "soup list"
  label_tags :: "soup list"
  input_tags :: "soup list"

text \<open>The object's state: the row buffer, and the rows of \<open>results.csv\<close>.\<close>

record calculator =
  row_data :: "cell list"
  results_csv :: "cell list list"

text \<open>
  One round of the loop over the directory listing, in two parts. First the five appends
  to the buffer: the name, the three metric methods and the lookup. Nothing in the loop
  catches an exception of the metric methods.
\<close>

definition build_row ::
  "(string \<Rightarrow> lookup) \<Rightarrow> cell list \<Rightarrow> fragment_record \<Rightarrow> py_error + cell list" where
  "build_row web row d =
     (case calculate_alt_metric (row @ [Str (name d)]) (alt_tags d) of
        Inl e \<Rightarrow> Inl e
      | Inr r1 \<Rightarrow>
     (case calculate_hyperlinks_metric r1 (href_tags d) of
        Inl e \<Rightarrow> Inl e
      | Inr r2 \<Rightarrow>
     (case calculate_label_input_metric r2 (label_tags d) (input_tags d) of
        Inl e \<Rightarrow> Inl e
      | Inr r3 \<Rightarrow> get_accessibility_percent web r3 (name d))))"

text \<open>Then \<open>writer.writerow(self.row_data)\<close> on the file opened for appending, and the reset.\<close>

definition process_record ::
  "(string \<Rightarrow> lookup) \<Rightarrow> calculator \<Rightarrow> fragment_record \<Rightarrow> py_error + calculator" where
  "process_record web c d =
     (case build_row web (row_data c) d of
        Inl e \<Rightarrow> Inl e
      | Inr r \<Rightarrow> Inr \<lparr>row_data = [], results_csv = results_csv c @ [r]\<rparr>)"

text \<open>
  The loop over \<open>os.listdir\<close>: the records are the stored files in listing order, the
  listing being taken once, before the first row is written.
\<close>

fun calculate_metrics ::
  "(string \<Rightarrow> lookup) \<Rightarrow> calculator \<Rightarrow> fragment_record list \<Rightarrow> py_error + calculator" where
  "calculate_metrics web c [] = Inr c"
| "calculate_metrics web c (d # ds) =
     (case process_record web c d of
        Inl e \<Rightarrow> Inl e
      | Inr c' \<Rightarrow> calculate_metrics web c' ds)"

text \<open>\<open>__init__\<close>: an empty buffer, then the run; \<open>results.csv\<close> is opened for appending.\<close>

definition init :: "(string \<Rightarrow> lookup) \<Rightarrow> cell list list \<Rightarrow> fragment_record list \<Rightarrow> py_error + calculator" where
  "init web csv ds = calculate_metrics web \<lparr>row_data = [], results_csv = csv\<rparr> ds"

subsection \<open>Well-formed fragments\<close>

text \<open>A fragment of the stated tag name: the parser finds at least one such element.\<close>

definition has_tag :: "string \<Rightarrow> soup \<Rightarrow> bool" where
  "has_tag n s = (find_all s n \<noteq> [])"

text \<open>The attribute \<open>k\<close> of the first \<open>n\<close> element, when both exist.\<close>

definition attr_of :: "soup \<Rightarrow> string \<Rightarrow> string \<Rightarrow> string option" where
  "attr_of s n k = (case find_all s n of [] \<Rightarrow> None | e # _ \<Rightarrow> attrs e k)"

subsection \<open>The metrics as the specification words them\<close>

definition boilerplate :: "string list" where
  "boilerplate = [''graphic of'', ''image of'', ''picture of'', ''this is an image of'']"

text \<open>
  An image is accessible when its alt attribute exists and, compared case-insensitively,
  is not "image", is not empty and contains none of the boilerplate substrings.
\<close>

definition itaa_accessible :: "soup \<Rightarrow> bool" where
  "itaa_accessible t =
     (case attr_of t ''img'' ''alt'' of
        None \<Rightarrow> False
      | Some a \<Rightarrow> lower a \<noteq> ''image'' \<and> lower a \<noteq> ''''
                  \<and> list_all (\<lambda>b. \<not> str_in b (lower a)) boilerplate)"

text \<open>The fragments the scraper stores for HAM: an \<open>a\<close> element that carries an href.\<close>

definition has_href :: "soup \<Rightarrow> bool" where
  "has_href s = (has_tag ''a'' s \<and> attr_of s ''a'' ''href'' \<noteq> None)"

text \<open>
  A link is accessible when some token of its text, split on single spaces, is a
  substring of its href.
\<close>

definition ham_accessible :: "soup \<Rightarrow> bool" where
  "ham_accessible s =
     (case attr_of s ''a'' ''href'' of
        None \<Rightarrow> False
      | Some h \<Rightarrow> list_ex (\<lambda>t. str_in t h) (split_space (soup_text s)))"

text \<open>
  An input is matched when it has an id, has no hidden attribute, and the id is a
  substring of the for attribute of some label.
\<close>

definition label_matches :: "string \<Rightarrow> soup \<Rightarrow> bool" where
  "label_matches i l =
     (case attr_of l ''label'' ''for'' of None \<Rightarrow> False | Some f \<Rightarrow> str_in i f)"

definition lim_matched :: "soup list \<Rightarrow> soup \<Rightarrow> bool" where
  "lim_matched labels s =
     (case attr_of s ''input'' ''id'' of
        None \<Rightarrow> False
      | Some i \<Rightarrow> attr_of s ''input'' ''hidden'' = None \<and> list_ex (label_matches i) labels)"

text \<open>What the loop over the inputs counts: the inputs whose round ends in the increment.\<close>

definition lim_counted :: "soup list \<Rightarrow> soup \<Rightarrow> bool" where
  "lim_counted labels s = (input_body labels s = Inr True)"

text \<open>Input fragments with and without a hidden attribute; labels with a for attribute.\<close>

definition hidden_input :: "soup \<Rightarrow> bool" where
  "hidden_input s = (has_tag ''input'' s \<and> attr_of s ''input'' ''hidden'' \<noteq> None)"

definition visible_input :: "soup \<Rightarrow> bool" where
  "visible_input s = (has_tag ''input'' s \<and> attr_of s ''input'' ''hidden'' = None)"

definition has_for :: "soup \<Rightarrow> bool" where
  "has_for l = (has_tag ''label'' l \<and> attr_of l ''label'' ''for'' \<noteq> None)"

text \<open>A metric value: the sentinel, or a number from 0 to 1.\<close>

fun metric_value :: "cell \<Rightarrow> bool" where
  "metric_value (Str s) = (s = ''No Data'')"
| "metric_value (Num q) = (0 \<le> q \<and> q \<le> 1)"

text \<open>
  The invariant of the data model: every fragment holds an element of the tag of its
  list, and every \<open>a\<close> fragment carries an href (the scraper stores
  \<open>findAll('a', href=True)\<close>). Nothing is required of alt, id, for or hidden.
\<close>

definition record_ok :: "fragment_record \<Rightarrow> bool" where
  "record_ok d =
     (list_all (has_tag ''img'') (alt_tags d) \<and> list_all has_href (href_tags d)
      \<and> list_all (has_tag ''label'') (label_tags d)
      \<and> list_all (has_tag ''input'') (input_tags d))"

text \<open>
  A row of the results table for a record: five cells, the name, the value of each
  metric method on the record's lists, and the string of the lookup.
\<close>

fun row_of :: "(string \<Rightarrow> lookup) \<Rightarrow> fragment_record \<Rightarrow> cell list \<Rightarrow> bool" where
  "row_of web d [n, v_itaa, v_ham, v_lim, v_ap] =
     (n = Str (name d)
      \<and> calculate_alt_metric [] (alt_tags d) = Inr [v_itaa]
      \<and> calculate_hyperlinks_metric [] (href_tags d) = Inr [v_ham]
      \<and> calculate_label_input_metric [] (label_tags d) (input_tags d) = Inr [v_lim]
      \<and> get_accessibility_percent web [] (name d) = Inr [v_ap])"
| "row_of web d r = False"

text \<open>The row written for a record (the empty row where none is written).\<close>

definition result_row :: "(string \<Rightarrow> lookup) \<Rightarrow> fragment_record \<Rightarrow> cell list" where
  "result_row web d = (case build_row web [] d of Inl e \<Rightarrow> [] | Inr r \<Rightarrow> r)"

subsection \<open>Sample fragments and records\<close>

text \<open>The parse of one element with the given attributes and text.\<close>

definition fragment :: "string \<Rightarrow> (string \<times> string) list \<Rightarrow> string \<Rightarrow> soup" where
  "fragment t kvs txt = \<lparr>soup_text = txt, elements = [\<lparr>tag = t, attrs = map_of kvs\<rparr>]\<rparr>"

text \<open>\<open><img alt="a photo">\<close>, \<open><img alt="">\<close>, \<open><img src="x.png">\<close>, \<open><img alt="An Image Of a cat">\<close>\<close>

definition img_photo :: soup where
  "img_photo = fragment ''img'' [(''alt'', ''a photo'')] []"

definition img_empty_alt :: soup where
  "img_empty_alt = fragment ''img'' [(''alt'', [])] []"

definition img_no_alt :: soup where
  "img_no_alt = fragment ''img'' [(''src'', ''x.png'')] []"

definition img_boilerplate :: soup where
  "img_boilerplate = fragment ''img'' [(''alt'', ''An Image Of a cat'')] []"

text \<open>
  \<open><a href="/products/shoes">Shoes</a>\<close>, \<open><a href="/shoes">shoes</a>\<close>,
  \<open><a href="/x"></a>\<close>, \<open><a href="/about">red shoes</a>\<close>, \<open><a>home</a>\<close>
\<close>

definition a_Shoes :: soup where
  "a_Shoes = fragment ''a'' [(''href'', ''/products/shoes'')] ''Shoes''"

definition a_shoes :: soup where
  "a_shoes = fragment ''a'' [(''href'', ''/shoes'')] ''shoes''"

definition a_no_text :: soup where
  "a_no_text = fragment ''a'' [(''href'', ''/x'')] []"

definition a_red_shoes :: soup where
  "a_red_shoes = fragment ''a'' [(''href'', ''/about'')] ''red shoes''"

definition a_no_href :: soup where
  "a_no_href = fragment ''a'' [] ''home''"

text \<open>\<open><label for="x-field">X</label>\<close>, \<open><label for="x">X</label>\<close>, \<open><label>Name</label>\<close>\<close>

definition label_x_field :: soup where
  "label_x_field = fragment ''label'' [(''for'', ''x-field'')] ''X''"

definition label_x :: soup where
  "label_x = fragment ''label'' [(''for'', ''x'')] ''X''"

definition label_no_for :: soup where
  "label_no_for = fragment ''label'' [] ''Name''"

text \<open>
  \<open><input id="x">\<close>, \<open><input hidden="" id="x">\<close>, \<open><input type="text">\<close>,
  \<open><input hidden="">\<close>, and a fragment without any input element
\<close>

definition input_x :: soup where
  "input_x = fragment ''input'' [(''id'', ''x'')] []"

definition input_x_hidden :: soup where
  "input_x_hidden = fragment ''input'' [(''hidden'', []), (''id'', ''x'')] []"

definition input_no_id :: soup where
  "input_no_id = fragment ''input'' [(''type'', ''text'')] []"

definition input_hidden :: soup where
  "input_hidden = fragment ''input'' [(''hidden'', [])] []"

definition no_input :: soup where
  "no_input = \<lparr>soup_text = ''text'', elements = []\<rparr>"

text \<open>A lookup that fails in the browser, and one that finds the div at the first try.\<close>

definition web_down :: "string \<Rightarrow> lookup" where
  "web_down u = \<lparr>first_source = Inl WebDriverException, second_source = Inl WebDriverException\<rparr>"

definition web_up :: "string \<Rightarrow> lookup" where
  "web_up u = \<lparr>first_source = Inr (Some ''87%''), second_source = Inr None\<rparr>"

text \<open>
  Lookups whose first page has no div: the browser fails in the second attempt, the
  second page has the div, and the second page has none either.
\<close>

definition web_retry_down :: "string \<Rightarrow> lookup" where
  "web_retry_down u = \<lparr>first_source = Inr None, second_source = Inl WebDriverException\<rparr>"

definition web_retry_up :: "string \<Rightarrow> lookup" where
  "web_retry_up u = \<lparr>first_source = Inr None, second_source = Inr (Some ''64%'')\<rparr>"

definition web_no_div :: "string \<Rightarrow> lookup" where
  "web_no_div u = \<lparr>first_source = Inr None, second_source = Inr None\<rparr>"

text \<open>A fully tagged site, a site without any tag, and a site with an href-less link.\<close>

definition site_full :: fragment_record where
  "site_full = \<lparr>name = ''full.example'', alt_tags = [img_photo], href_tags = [a_shoes],
     label_tags = [label_x_field], input_tags = [input_x]\<rparr>"

definition site_empty :: fragment_record where
  "site_empty = \<lparr>name = ''empty.example'', alt_tags = [], href_tags = [],
     label_tags = [], input_tags = []\<rparr>"

definition site_bad_link :: fragment_record where
  "site_bad_link = \<lparr>name = ''bad.example'', alt_tags = [img_photo],
     href_tags = [a_no_href, a_shoes], label_tags = [label_x], input_tags = [input_x]\<rparr>"

definition site_mixed :: fragment_record where
  "site_mixed = \<lparr>name = ''mixed.example'',
     alt_tags = [img_photo, img_empty_alt, img_no_alt, img_boilerplate],
     href_tags = [a_Shoes, a_shoes, a_no_text, a_red_shoes],
     label_tags = [label_x_field, label_no_for],
     input_tags = [input_x, input_x_hidden, input_no_id]\<rparr>"

section \<open>Properties\<close>

lemmas sample_defs = fragment_def img_photo_def img_empty_alt_def img_no_alt_def
  img_boilerplate_def a_Shoes_def a_shoes_def a_no_text_def a_red_shoes_def a_no_href_def
  label_x_field_def label_x_def label_no_for_def input_x_def input_x_hidden_def
  input_no_id_def input_hidden_def no_input_def

lemmas site_defs = site_full_def site_empty_def site_bad_link_def site_mixed_def
  web_down_def web_up_def web_retry_down_def web_retry_up_def web_no_div_def

lemmas metric_defs = calculate_alt_metric_def calculate_hyperlinks_metric_def
  calculate_label_input_metric_def label_input_count_def input_body_def
  get_accessibility_percent_def first_attempt_def second_attempt_def div_text_def
  alt_check_def lower_def lower_char_def

lemmas access_defs = tag_attr_def first_tag_def get_attr_def find_all_def has_tag_def
  attr_of_def

subsection \<open>Strings\<close>

lemma startswith_prefix: "startswith a b = prefix a b"
  by (induction a b rule: startswith.induct) simp_all

lemma str_in_sublist: "str_in a b = sublist a b"
  by (induction b) (simp_all add: startswith_prefix sublist_Cons_right)

lemma str_in_Nil: "str_in [] b"
  by (cases b) simp_all

lemma lower_Nil_iff: "lower a = [] \<longleftrightarrow> a = []"
  by (simp add: lower_def)

subsection \<open>Element access\<close>

lemma tag_attr_cases:
  "tag_attr s n k =
     (if \<not> has_tag n s then Inl IndexError
      else (case attr_of s n k of None \<Rightarrow> Inl KeyError | Some v \<Rightarrow> Inr v))"
  by (simp add: tag_attr_def first_tag_def get_attr_def has_tag_def attr_of_def
           split: list.split)

subsection \<open>ITAA\<close>

lemma alt_check_accessible:
  "attr_of t ''img'' ''alt'' = Some a \<Longrightarrow> alt_check a = itaa_accessible t"
  by (simp add: alt_check_def itaa_accessible_def boilerplate_def lower_Nil_iff)

lemma alt_loop_count:
  "list_all (has_tag ''img'') ts \<Longrightarrow>
   alt_loop ts c = Inr (c + length (filter itaa_accessible ts))"
proof (induction ts arbitrary: c)
  case Nil
  then show ?case by simp
next
  case (Cons t ts)
  then have img: "has_tag ''img'' t" and rest: "list_all (has_tag ''img'') ts"
    by simp_all
  show ?case
  proof (cases "attr_of t ''img'' ''alt''")
    case None
    then have "\<not> itaa_accessible t"
      by (simp add: itaa_accessible_def)
    with None img Cons.IH [OF rest] show ?thesis
      by (simp add: tag_attr_cases)
  next
    case (Some a)
    with img Cons.IH [OF rest] alt_check_accessible [OF Some] show ?thesis
      by (simp add: tag_attr_cases)
  qed
qed

text \<open>
  C1. For a list of \<open><img>\<close> fragments, ITAA is "No Data" on the empty list and otherwise
  the number of accessible images (alt present, not "image", not empty, no boilerplate
  substring, all compared case-insensitively) divided by the number of fragments; a
  fragment without alt is in the denominator and never in the numerator.
\<close>

theorem itaa_ratio:
  "list_all (has_tag ''img'') img_tags \<Longrightarrow>
   calculate_alt_metric row img_tags =
     Inr (row @
       [if img_tags = [] then Str ''No Data''
        else Num (rat_of_nat (length (filter itaa_accessible img_tags))
                  / rat_of_nat (length img_tags))])
   \<and> (\<forall>t. attr_of t ''img'' ''alt'' = None \<longrightarrow> \<not> itaa_accessible t)"
  by (simp add: calculate_alt_metric_def alt_loop_count itaa_accessible_def)

theorem itaa_ratio_witness:
  "list_all (has_tag ''img'') [img_photo, img_empty_alt, img_no_alt, img_boilerplate]
   \<and> calculate_alt_metric [Str ''a.example'']
         [img_photo, img_empty_alt, img_no_alt, img_boilerplate]
       = Inr [Str ''a.example'', Num (1 / 4)]
   \<and> calculate_alt_metric [Str ''a.example''] [] = Inr [Str ''a.example'', Str ''No Data'']"
proof -
  let ?tags = "[img_photo, img_empty_alt, img_no_alt, img_boilerplate]"
  have h: "list_all (has_tag ''img'') ?tags"
    by (simp add: sample_defs access_defs)
  have n: "length (filter itaa_accessible ?tags) = 1"
    by (simp add: sample_defs access_defs itaa_accessible_def boilerplate_def lower_def
          lower_char_def)
  from itaa_ratio [OF h, of "[Str ''a.example'']"] itaa_ratio [of "[]" "[Str ''a.example'']"]
    n h
  show ?thesis by simp
qed

subsection \<open>Splitting on spaces\<close>

lemma split_space_not_Nil: "split_space s \<noteq> []"
  by (induction s) (simp_all split: list.split)

lemma join_split_space: "join_space (split_space s) = s"
proof (induction s)
  case Nil
  show ?case by simp
next
  case (Cons c cs)
  obtain t ts where ts: "split_space cs = t # ts"
    using split_space_not_Nil [of cs] by (cases "split_space cs") auto
  with Cons show ?case
    by (cases ts) auto
qed

lemma split_space_tokens: "list_all (\<lambda>t. CHR '' '' \<notin> set t) (split_space s)"
  by (induction s) (auto split: list.split)

subsection \<open>HAM\<close>

lemma href_token_loop_ex:
  "has_tag ''a'' s \<Longrightarrow> attr_of s ''a'' ''href'' = Some h \<Longrightarrow>
   href_token_loop s toks = Inr (list_ex (\<lambda>t. str_in t h) toks)"
  by (induction toks) (simp_all add: tag_attr_cases)

lemma href_tokens_accessible:
  "has_href s \<Longrightarrow>
   href_token_loop s (split_space (soup_text s)) = Inr (ham_accessible s)"
  by (auto simp: has_href_def ham_accessible_def href_token_loop_ex)

lemma href_loop_count:
  "list_all has_href hs \<Longrightarrow>
   href_loop hs c = Inr (c + length (filter ham_accessible hs))"
  by (induction hs arbitrary: c) (simp_all add: href_tokens_accessible)

lemma empty_text_accessible: "has_href s \<Longrightarrow> soup_text s = [] \<Longrightarrow> ham_accessible s"
  by (auto simp: has_href_def ham_accessible_def str_in_Nil)

text \<open>
  C2. For a list of \<open>a\<close> fragments with hrefs, HAM is "No Data" on the empty list and
  otherwise the number of links one of whose text tokens (text split on single spaces)
  is a substring, case-sensitively, of the href, divided by the number of links. A link
  with empty text is accessible; "Shoes" against "/products/shoes" is not, "shoes"
  against "/shoes" is.
\<close>

theorem ham_ratio:
  "list_all has_href hrefs \<Longrightarrow>
   calculate_hyperlinks_metric row hrefs =
     Inr (row @
       [if hrefs = [] then Str ''No Data''
        else Num (rat_of_nat (length (filter ham_accessible hrefs))
                  / rat_of_nat (length hrefs))])
   \<and> (\<forall>s. has_href s \<and> soup_text s = [] \<longrightarrow> ham_accessible s)
   \<and> calculate_hyperlinks_metric row [a_Shoes] = Inr (row @ [Num 0])
   \<and> calculate_hyperlinks_metric row [a_shoes] = Inr (row @ [Num 1])"
proof -
  assume ok: "list_all has_href hrefs"
  have general: "calculate_hyperlinks_metric row hrefs =
     Inr (row @
       [if hrefs = [] then Str ''No Data''
        else Num (rat_of_nat (length (filter ham_accessible hrefs))
                  / rat_of_nat (length hrefs))])"
    using ok by (simp add: calculate_hyperlinks_metric_def href_loop_count)
  have upper: "calculate_hyperlinks_metric row [a_Shoes] = Inr (row @ [Num 0])"
    by (simp add: calculate_hyperlinks_metric_def sample_defs access_defs)
  have lower: "calculate_hyperlinks_metric row [a_shoes] = Inr (row @ [Num 1])"
    by (simp add: calculate_hyperlinks_metric_def sample_defs access_defs)
  from general upper lower empty_text_accessible show ?thesis
    by blast
qed

theorem ham_ratio_witness:
  "list_all has_href [a_Shoes, a_shoes, a_no_text, a_red_shoes]
   \<and> calculate_hyperlinks_metric [] [a_Shoes, a_shoes, a_no_text, a_red_shoes]
       = Inr [Num (1 / 2)]
   \<and> has_href a_no_text \<and> soup_text a_no_text = [] \<and> ham_accessible a_no_text"
proof -
  let ?hs = "[a_Shoes, a_shoes, a_no_text, a_red_shoes]"
  have h: "list_all has_href ?hs"
    by (simp add: sample_defs access_defs has_href_def)
  have e: "has_href a_no_text \<and> soup_text a_no_text = []"
    by (simp add: sample_defs access_defs has_href_def)
  have n: "length (filter ham_accessible ?hs) = 2"
    by (simp add: sample_defs access_defs ham_accessible_def)
  from ham_ratio [OF h, of "[]"] n h e show ?thesis
    by simp
qed

subsection \<open>LIM: the branch for an empty label list\<close>

lemma hidden_scan_skip:
  "list_all hidden_input pre \<Longrightarrow> hidden_scan (pre @ rest) = hidden_scan rest"
  by (induction pre) (auto simp: hidden_input_def tag_attr_cases)

lemma hidden_scan_visible: "visible_input x \<Longrightarrow> hidden_scan (x # post) = Inr True"
  by (simp add: visible_input_def tag_attr_cases)

lemma input_body_no_labels:
  "has_tag ''input'' s \<Longrightarrow> input_body [] s = Inl KeyError \<or> input_body [] s = Inr False"
  by (simp add: input_body_def tag_attr_cases split: option.split)

lemma input_loop_no_labels:
  "list_all (has_tag ''input'') inputs \<Longrightarrow> input_loop [] inputs c = Inr c"
proof (induction inputs)
  case Nil
  show ?case by simp
next
  case (Cons s inputs)
  then have "has_tag ''input'' s" and rest: "input_loop [] inputs c = Inr c"
    by simp_all
  with input_body_no_labels [of s] show ?case
    by auto
qed

lemma hidden_input_has_tag: "list_all hidden_input inputs \<Longrightarrow> list_all (has_tag ''input'') inputs"
  by (induction inputs) (simp_all add: hidden_input_def)

text \<open>
  C3. With inputs but no labels: an input without hidden, all inputs before it being
  hidden, ends the method with 0.0 whatever follows it in the list (the rest is not
  looked at, not even a fragment that would raise); when every input is hidden the scan
  runs to its end, the general count runs on the empty label list and gives 0.0.
\<close>

theorem lim_short_circuit:
  "(list_all hidden_input pre \<and> visible_input x \<longrightarrow>
      hidden_scan (pre @ x # post) = Inr True
      \<and> calculate_label_input_metric row [] (pre @ x # post) = Inr (row @ [Num 0]))
   \<and> (inputs \<noteq> [] \<and> list_all hidden_input inputs \<longrightarrow>
      hidden_scan inputs = Inr False
      \<and> calculate_label_input_metric row [] inputs = label_input_count row [] inputs
      \<and> label_input_count row [] inputs = Inr (row @ [Num 0]))"
proof (intro conjI impI)
  assume a: "list_all hidden_input pre \<and> visible_input x"
  then have "hidden_scan (pre @ x # post) = hidden_scan (x # post)"
    by (intro hidden_scan_skip) simp
  also from a have "\<dots> = Inr True"
    by (intro hidden_scan_visible) simp
  finally show scan: "hidden_scan (pre @ x # post) = Inr True" .
  then show "calculate_label_input_metric row [] (pre @ x # post) = Inr (row @ [Num 0])"
    by (simp add: calculate_label_input_metric_def)
next
  assume b: "inputs \<noteq> [] \<and> list_all hidden_input inputs"
  then have "hidden_scan (inputs @ []) = hidden_scan []"
    by (intro hidden_scan_skip) simp
  then show scan: "hidden_scan inputs = Inr False"
    by simp
  with b show "calculate_label_input_metric row [] inputs = label_input_count row [] inputs"
    by (simp add: calculate_label_input_metric_def)
  from b show "label_input_count row [] inputs = Inr (row @ [Num 0])"
    by (simp add: label_input_count_def input_loop_no_labels hidden_input_has_tag)
qed

theorem lim_short_circuit_witness:
  "list_all hidden_input [input_hidden] \<and> visible_input input_x
   \<and> calculate_label_input_metric [] [] ([input_hidden] @ input_x # [no_input, input_x])
       = Inr [Num 0]
   \<and> [input_hidden, input_x_hidden] \<noteq> []
   \<and> list_all hidden_input [input_hidden, input_x_hidden]
   \<and> hidden_scan [input_hidden, input_x_hidden] = Inr False
   \<and> calculate_label_input_metric [] [] [input_hidden, input_x_hidden] = Inr [Num 0]"
proof -
  have a: "list_all hidden_input [input_hidden] \<and> visible_input input_x"
    by (simp add: sample_defs access_defs hidden_input_def visible_input_def)
  have b: "[input_hidden, input_x_hidden] \<noteq> []
           \<and> list_all hidden_input [input_hidden, input_x_hidden]"
    by (simp add: sample_defs access_defs hidden_input_def)
  from a b
    lim_short_circuit [of "[input_hidden]" input_x "[no_input, input_x]" "[]"
      "[input_hidden, input_x_hidden]"]
  show ?thesis
    by simp
qed

subsection \<open>LIM: the general count\<close>

lemma label_loop_result:
  "has_tag ''input'' s \<Longrightarrow> list_all (has_tag ''label'') labels \<Longrightarrow>
   label_loop s i labels = Inl KeyError \<or> (\<exists>b. label_loop s i labels = Inr b)"
  by (induction labels) (auto simp: tag_attr_cases split: option.split)

lemma input_body_result:
  "has_tag ''input'' s \<Longrightarrow> list_all (has_tag ''label'') labels \<Longrightarrow>
   input_body labels s = Inl KeyError \<or> (\<exists>b. input_body labels s = Inr b)"
  using label_loop_result [of s labels]
  by (auto simp: input_body_def tag_attr_cases split: option.split)

lemma input_loop_count:
  "list_all (has_tag ''input'') inputs \<Longrightarrow> list_all (has_tag ''label'') labels \<Longrightarrow>
   input_loop labels inputs c = Inr (c + length (filter (lim_counted labels) inputs))"
proof (induction inputs arbitrary: c)
  case Nil
  show ?case by simp
next
  case (Cons s inputs)
  then have s: "has_tag ''input'' s" and rest: "list_all (has_tag ''input'') inputs"
    by simp_all
  note IH = Cons.IH [OF rest Cons.prems(2)]
  from input_body_result [OF s Cons.prems(2)] show ?case
    by (auto simp: IH lim_counted_def)
qed

text \<open>Where every label carries a for attribute the count is the count of matched inputs.\<close>

lemma label_loop_matches:
  "has_tag ''input'' s \<Longrightarrow> list_all has_for labels \<Longrightarrow>
   label_loop s i labels =
     Inr (attr_of s ''input'' ''hidden'' = None \<and> list_ex (label_matches i) labels)"
  by (induction labels)
     (auto simp: has_for_def tag_attr_cases label_matches_def split: option.split)

lemma lim_counted_matched:
  "has_tag ''input'' s \<Longrightarrow> list_all has_for labels \<Longrightarrow>
   lim_counted labels s = lim_matched labels s"
  by (auto simp: lim_counted_def lim_matched_def input_body_def tag_attr_cases
        label_loop_matches split: option.split)

lemma has_for_has_tag: "list_all has_for labels \<Longrightarrow> list_all (has_tag ''label'') labels"
  by (induction labels) (simp_all add: has_for_def)

lemma lim_ratio_labels_with_for:
  assumes "list_all (has_tag ''input'') inputs" and "list_all has_for labels"
    and "inputs \<noteq> []" and "labels \<noteq> []"
  shows "calculate_label_input_metric row labels inputs =
     Inr (row @ [Num (rat_of_nat (length (filter (lim_matched labels) inputs))
                      / rat_of_nat (length inputs))])"
proof -
  have "filter (lim_counted labels) inputs = filter (lim_matched labels) inputs"
    using assms(1,2) by (intro filter_cong) (auto simp: list_all_iff lim_counted_matched)
  with assms show ?thesis
    by (simp add: calculate_label_input_metric_def label_input_count_def
          input_loop_count has_for_has_tag)
qed

text \<open>
  C4. The claim: with inputs and labels, an input is counted if and only if it has an
  id, has no hidden attribute, and its id is a substring of the for attribute of some
  label; the source's docstring has every input compared "against every label tag until
  a match is found". The code agrees where every label carries a for attribute (lemma
  \<open>lim_ratio_labels_with_for\<close>), and not otherwise: it stops the scan of the labels at
  the first label without a for attribute: its KeyError is caught by the \<open>except KeyError: pass\<close> meant for an
  input without id. With \<open><label>Name</label>\<close> before \<open><label for="x">\<close> the input
  \<open><input id="x">\<close> is matched in the sense of the claim but not counted; with the two
  labels in the other order it is counted.
\<close>

theorem lim_label_without_for:
  "lim_matched [label_no_for, label_x] input_x
   \<and> calculate_label_input_metric row [label_no_for, label_x] [input_x] = Inr (row @ [Num 0])
   \<and> calculate_label_input_metric row [label_x, label_no_for] [input_x] = Inr (row @ [Num 1])"
  by (simp add: calculate_label_input_metric_def label_input_count_def input_body_def
        lim_matched_def label_matches_def sample_defs access_defs)

subsection \<open>The buffer only receives\<close>

lemma alt_metric_row:
  "calculate_alt_metric row tags =
     (case calculate_alt_metric [] tags of Inl e \<Rightarrow> Inl e | Inr v \<Rightarrow> Inr (row @ v))"
  by (simp add: calculate_alt_metric_def split: sum.split)

lemma hyperlinks_metric_row:
  "calculate_hyperlinks_metric row tags =
     (case calculate_hyperlinks_metric [] tags of Inl e \<Rightarrow> Inl e | Inr v \<Rightarrow> Inr (row @ v))"
  by (simp add: calculate_hyperlinks_metric_def split: sum.split)

lemma label_input_metric_row:
  "calculate_label_input_metric row labels inputs =
     (case calculate_label_input_metric [] labels inputs of
        Inl e \<Rightarrow> Inl e
      | Inr v \<Rightarrow> Inr (row @ v))"
  by (cases "labels = []")
     (auto simp: calculate_label_input_metric_def label_input_count_def
        split: sum.split bool.split)

lemma accessibility_percent_row:
  "get_accessibility_percent web row url =
     (case get_accessibility_percent web [] url of Inl e \<Rightarrow> Inl e | Inr v \<Rightarrow> Inr (row @ v))"
  by (simp add: get_accessibility_percent_def first_attempt_def second_attempt_def
        split: sum.split)

subsection \<open>Values of the metrics on well-formed lists\<close>

lemma ratio_metric_value: "k \<le> n \<Longrightarrow> 0 < n \<Longrightarrow> metric_value (Num (rat_of_nat k / rat_of_nat n))"
  by simp

lemma alt_metric_ok:
  assumes "list_all (has_tag ''img'') tags"
  shows "\<exists>v. calculate_alt_metric row tags = Inr (row @ [v]) \<and> metric_value v"
proof (cases "tags = []")
  case True
  then show ?thesis by (simp add: calculate_alt_metric_def)
next
  case False
  have "metric_value (Num (rat_of_nat (length (filter itaa_accessible tags))
                           / rat_of_nat (length tags)))"
    using False by (intro ratio_metric_value) simp_all
  with False assms show ?thesis
    by (simp add: calculate_alt_metric_def alt_loop_count)
qed

lemma hyperlinks_metric_ok:
  assumes "list_all has_href tags"
  shows "\<exists>v. calculate_hyperlinks_metric row tags = Inr (row @ [v]) \<and> metric_value v"
proof (cases "tags = []")
  case True
  then show ?thesis by (simp add: calculate_hyperlinks_metric_def)
next
  case False
  have "metric_value (Num (rat_of_nat (length (filter ham_accessible tags))
                           / rat_of_nat (length tags)))"
    using False by (intro ratio_metric_value) simp_all
  with False assms show ?thesis
    by (simp add: calculate_hyperlinks_metric_def href_loop_count)
qed

lemma hidden_scan_result:
  "list_all (has_tag ''input'') inputs \<Longrightarrow> \<exists>b. hidden_scan inputs = Inr b"
  by (induction inputs) (auto simp: tag_attr_cases split: option.split)

lemma label_input_count_ok:
  assumes "list_all (has_tag ''input'') inputs" and "list_all (has_tag ''label'') labels"
    and "inputs \<noteq> []"
  shows "\<exists>v. label_input_count row labels inputs = Inr (row @ [v]) \<and> metric_value v"
proof -
  have "metric_value (Num (rat_of_nat (length (filter (lim_counted labels) inputs))
                           / rat_of_nat (length inputs)))"
    using assms(3) by (intro ratio_metric_value) simp_all
  with assms show ?thesis
    by (simp add: label_input_count_def input_loop_count)
qed

lemma label_input_metric_ok:
  assumes "list_all (has_tag ''input'') inputs" and "list_all (has_tag ''label'') labels"
  shows "\<exists>v. calculate_label_input_metric row labels inputs = Inr (row @ [v])
             \<and> metric_value v"
proof (cases "inputs = []")
  case True
  then show ?thesis by (simp add: calculate_label_input_metric_def)
next
  case False
  from hidden_scan_result [OF assms(1)] obtain b where b: "hidden_scan inputs = Inr b" ..
  from label_input_count_ok [OF assms False, of row] b False show ?thesis
    by (cases b) (auto simp: calculate_label_input_metric_def)
qed

text \<open>
  C5. For a record that satisfies the invariant of the data model, each of the three
  methods appends one value, and that value is "No Data" or a number from 0 to 1.
\<close>

theorem metric_range:
  "record_ok d \<Longrightarrow>
   (\<exists>v. calculate_alt_metric row (alt_tags d) = Inr (row @ [v]) \<and> metric_value v)
   \<and> (\<exists>v. calculate_hyperlinks_metric row (href_tags d) = Inr (row @ [v]) \<and> metric_value v)
   \<and> (\<exists>v. calculate_label_input_metric row (label_tags d) (input_tags d) = Inr (row @ [v])
          \<and> metric_value v)"
  by (simp add: record_ok_def alt_metric_ok hyperlinks_metric_ok label_input_metric_ok)

theorem metric_range_witness:
  "record_ok site_mixed
   \<and> calculate_alt_metric [] (alt_tags site_mixed) = Inr [Num (1 / 4)]
   \<and> calculate_hyperlinks_metric [] (href_tags site_mixed) = Inr [Num (1 / 2)]
   \<and> calculate_label_input_metric [] (label_tags site_mixed) (input_tags site_mixed)
       = Inr [Num (1 / 3)]
   \<and> metric_value (Num (1 / 4)) \<and> metric_value (Num (1 / 2)) \<and> metric_value (Num (1 / 3))"
proof -
  have h: "record_ok site_mixed"
    by (simp add: record_ok_def site_defs sample_defs access_defs has_href_def)
  have a: "calculate_alt_metric [] (alt_tags site_mixed) = Inr [Num (1 / 4)]"
    by (simp add: site_defs sample_defs access_defs metric_defs)
  have b: "calculate_hyperlinks_metric [] (href_tags site_mixed) = Inr [Num (1 / 2)]"
    by (simp add: site_defs sample_defs access_defs metric_defs)
  have c: "calculate_label_input_metric [] (label_tags site_mixed) (input_tags site_mixed)
       = Inr [Num (1 / 3)]"
    by (simp add: site_defs sample_defs access_defs metric_defs)
  from metric_range [OF h, of "[]"] h a b c show ?thesis
    by simp
qed

subsection \<open>The lookup\<close>

lemma accessibility_percent_total:
  "\<exists>t. get_accessibility_percent web row url = Inr (row @ [Str t])"
  by (simp add: get_accessibility_percent_def first_attempt_def second_attempt_def
        split: sum.split)

lemma accessibility_percent_browser_fails:
  "first_source (web url) = Inl e \<Longrightarrow>
   get_accessibility_percent web row url = Inr (row @ [Str ''-1%''])"
  by (simp add: get_accessibility_percent_def first_attempt_def)

subsection \<open>One record\<close>

lemma build_row_ok:
  assumes "record_ok d"
  shows "\<exists>r. build_row web [] d = Inr r \<and> row_of web d r"
proof -
  from assms have imgs: "list_all (has_tag ''img'') (alt_tags d)"
    and hrefs: "list_all has_href (href_tags d)"
    and labels: "list_all (has_tag ''label'') (label_tags d)"
    and inputs: "list_all (has_tag ''input'') (input_tags d)"
    by (simp_all add: record_ok_def)
  from alt_metric_ok [OF imgs, of "[]"]
  obtain v1 where v1: "calculate_alt_metric [] (alt_tags d) = Inr [v1]"
    by auto
  from hyperlinks_metric_ok [OF hrefs, of "[]"]
  obtain v2 where v2: "calculate_hyperlinks_metric [] (href_tags d) = Inr [v2]"
    by auto
  from label_input_metric_ok [OF inputs labels, of "[]"]
  obtain v3 where v3: "calculate_label_input_metric [] (label_tags d) (input_tags d) = Inr [v3]"
    by auto
  from accessibility_percent_total [of web "[]" "name d"]
  obtain t where t: "get_accessibility_percent web [] (name d) = Inr [Str t]"
    by auto
  have r1: "calculate_alt_metric [Str (name d)] (alt_tags d) = Inr [Str (name d), v1]"
    using alt_metric_row [of "[Str (name d)]" "alt_tags d"] v1 by simp
  have r2: "calculate_hyperlinks_metric [Str (name d), v1] (href_tags d)
            = Inr [Str (name d), v1, v2]"
    using hyperlinks_metric_row [of "[Str (name d), v1]" "href_tags d"] v2 by simp
  have r3: "calculate_label_input_metric [Str (name d), v1, v2] (label_tags d) (input_tags d)
            = Inr [Str (name d), v1, v2, v3]"
    using label_input_metric_row [of "[Str (name d), v1, v2]" "label_tags d" "input_tags d"] v3
    by simp
  have r4: "get_accessibility_percent web [Str (name d), v1, v2, v3] (name d)
            = Inr [Str (name d), v1, v2, v3, Str t]"
    using accessibility_percent_row [of web "[Str (name d), v1, v2, v3]" "name d"] t by simp
  have "build_row web [] d = Inr [Str (name d), v1, v2, v3, Str t]"
    by (simp add: build_row_def r1 r2 r3 r4)
  moreover have "row_of web d [Str (name d), v1, v2, v3, Str t]"
    by (simp add: v1 v2 v3 t)
  ultimately show ?thesis
    by blast
qed

lemma row_of_length: "row_of web d r \<Longrightarrow> length r = 5"
  by (induction web d r rule: row_of.induct) simp_all

lemma process_record_ok:
  assumes "record_ok d"
  shows "process_record web \<lparr>row_data = [], results_csv = csv\<rparr> d
         = Inr \<lparr>row_data = [], results_csv = csv @ [result_row web d]\<rparr>
         \<and> row_of web d (result_row web d)"
proof -
  from build_row_ok [OF assms] obtain r where "build_row web [] d = Inr r" "row_of web d r"
    by blast
  then show ?thesis
    by (simp add: process_record_def result_row_def)
qed

subsection \<open>The run\<close>

lemma calculate_metrics_append:
  "calculate_metrics web c (xs @ ys) =
     (case calculate_metrics web c xs of
        Inl e \<Rightarrow> Inl e
      | Inr c' \<Rightarrow> calculate_metrics web c' ys)"
  by (induction xs arbitrary: c) (simp_all split: sum.split)

lemma run_rows:
  "list_all record_ok ds \<Longrightarrow>
   calculate_metrics web \<lparr>row_data = [], results_csv = csv\<rparr> ds
   = Inr \<lparr>row_data = [], results_csv = csv @ map (result_row web) ds\<rparr>"
  by (induction ds arbitrary: csv) (simp_all add: process_record_ok)

lemma rows_of_records:
  "list_all record_ok ds \<Longrightarrow> list_all2 (row_of web) ds (map (result_row web) ds)"
  by (induction ds) (simp_all add: process_record_ok)

lemma run_stops:
  assumes "list_all record_ok pre" and "build_row web [] d = Inl e"
  shows "calculate_metrics web \<lparr>row_data = [], results_csv = csv\<rparr> (pre @ d # post) = Inl e"
  using assms by (simp add: calculate_metrics_append run_rows process_record_def)

text \<open>
  C6, as the code has it. For records that satisfy the invariant of the data model no
  exception leaves a metric method and the run goes through all of them. The loop has no
  handler: when the metric methods raise on a record, the run ends there with that
  exception.
\<close>

theorem run_completes_on_valid_records:
  "(list_all record_ok ds \<longrightarrow>
      (\<exists>c'. calculate_metrics web \<lparr>row_data = [], results_csv = csv\<rparr> ds = Inr c'))
   \<and> (list_all record_ok pre \<and> build_row web [] d = Inl e \<longrightarrow>
      calculate_metrics web \<lparr>row_data = [], results_csv = csv\<rparr> (pre @ d # post) = Inl e)"
  by (simp add: run_rows run_stops)

theorem run_completes_on_valid_records_witness:
  "list_all record_ok [site_full, site_mixed]
   \<and> (\<exists>c'. calculate_metrics web_up \<lparr>row_data = [], results_csv = []\<rparr>
              [site_full, site_mixed] = Inr c')
   \<and> list_all record_ok [site_full] \<and> build_row web_up [] site_bad_link = Inl KeyError
   \<and> calculate_metrics web_up \<lparr>row_data = [], results_csv = []\<rparr>
        ([site_full] @ site_bad_link # [site_empty]) = Inl KeyError"
proof -
  have full: "record_ok site_full"
    by (simp add: record_ok_def site_defs sample_defs access_defs has_href_def)
  have mixed: "record_ok site_mixed"
    by (simp add: record_ok_def site_defs sample_defs access_defs has_href_def)
  have bad: "build_row web_up [] site_bad_link = Inl KeyError"
    by (simp add: build_row_def site_defs sample_defs access_defs metric_defs)
  from full mixed bad
    run_completes_on_valid_records [of "[site_full, site_mixed]" web_up "[]" "[site_full]"
      site_bad_link KeyError "[site_empty]"]
  show ?thesis
    by simp
qed

text \<open>
  The claim as stated fails: a record with the link \<open><a>home</a>\<close> ends the run with
  KeyError; the link is not skipped, and the records after it are not processed.
\<close>

theorem malformed_link_ends_run:
  "init web_down [] [site_bad_link, site_empty] = Inl KeyError"
  by (simp add: init_def process_record_def build_row_def site_defs sample_defs access_defs
        metric_defs)

subsection \<open>Missing attributes\<close>

lemma alt_loop_without_alt:
  "has_tag ''img'' t \<Longrightarrow> attr_of t ''img'' ''alt'' = None \<Longrightarrow>
   alt_loop (pre @ t # post) c = alt_loop (pre @ post) c"
  by (induction pre arbitrary: c)
     (simp_all add: tag_attr_cases split: sum.split py_error.split option.split)

lemma input_loop_without_id:
  "has_tag ''input'' s \<Longrightarrow> attr_of s ''input'' ''id'' = None \<Longrightarrow>
   input_loop labels (pre @ s # post) c = input_loop labels (pre @ post) c"
proof (induction pre arbitrary: c)
  case Nil
  then show ?case
    by (simp add: input_body_def tag_attr_cases)
next
  case (Cons x pre)
  then show ?case
    by (simp split: sum.split py_error.split)
qed

lemma alt_metric_without_alt:
  assumes "list_all (has_tag ''img'') (pre @ t # post)" and "attr_of t ''img'' ''alt'' = None"
  shows "\<exists>k. alt_loop (pre @ post) 0 = Inr k
           \<and> calculate_alt_metric row (pre @ t # post)
               = Inr (row @ [Num (rat_of_nat k / rat_of_nat (length pre + length post + 1))])"
proof -
  from assms(1) have t: "has_tag ''img'' t" and others: "list_all (has_tag ''img'') (pre @ post)"
    by simp_all
  let ?k = "length (filter itaa_accessible (pre @ post))"
  have without: "alt_loop (pre @ post) 0 = Inr ?k"
    using alt_loop_count [OF others, of 0] by simp
  then have "alt_loop (pre @ t # post) 0 = Inr ?k"
    using alt_loop_without_alt [OF t assms(2), of pre post 0] by simp
  then have "calculate_alt_metric row (pre @ t # post)
      = Inr (row @ [Num (rat_of_nat ?k / rat_of_nat (length pre + length post + 1))])"
    by (simp add: calculate_alt_metric_def)
  with without show ?thesis
    by blast
qed

lemma label_input_metric_without_id:
  assumes "list_all (has_tag ''input'') (pre @ s # post)"
    and "list_all (has_tag ''label'') labels"
    and "attr_of s ''input'' ''id'' = None"
  shows "\<exists>k. input_loop labels (pre @ post) 0 = Inr k
           \<and> calculate_label_input_metric row labels (pre @ s # post)
               = Inr (row @ [Num (rat_of_nat k / rat_of_nat (length pre + length post + 1))])"
proof -
  from assms(1) have s: "has_tag ''input'' s"
    and others: "list_all (has_tag ''input'') (pre @ post)"
    by simp_all
  let ?k = "length (filter (lim_counted labels) (pre @ post))"
  have without: "input_loop labels (pre @ post) 0 = Inr ?k"
    using input_loop_count [OF others assms(2), of 0] by simp
  then have with_s: "input_loop labels (pre @ s # post) 0 = Inr ?k"
    using input_loop_without_id [OF s assms(3), of labels pre post 0] by simp
  then have count: "label_input_count row labels (pre @ s # post)
      = Inr (row @ [Num (rat_of_nat ?k / rat_of_nat (length pre + length post + 1))])"
    by (simp add: label_input_count_def)
  have "calculate_label_input_metric row labels (pre @ s # post)
      = Inr (row @ [Num (rat_of_nat ?k / rat_of_nat (length pre + length post + 1))])"
  proof (cases "labels = []")
    case False
    with count show ?thesis
      by (simp add: calculate_label_input_metric_def)
  next
    case True
    with without have zero: "?k = 0"
      using input_loop_no_labels [OF others, of 0] by simp
    from hidden_scan_result [OF assms(1)] obtain b
      where b: "hidden_scan (pre @ s # post) = Inr b" ..
    show ?thesis
    proof (cases b)
      case True
      with b \<open>labels = []\<close> zero show ?thesis
        by (simp add: calculate_label_input_metric_def)
    next
      case False
      with b \<open>labels = []\<close> count show ?thesis
        by (simp add: calculate_label_input_metric_def)
    qed
  qed
  with without show ?thesis
    by blast
qed

text \<open>
  C7, as the code has it. On a record that satisfies the invariant of the data model no
  metric method raises, whichever of alt, id, for and hidden are missing. An image
  without alt and an input without id only fail to count: the metric is the count that
  the code's loop gives on the list without that fragment, divided by the length of the
  list with it. (An \<open>a\<close> fragment without href is outside the data model; on it HAM
  raises KeyError.)
\<close>

theorem attribute_absence_local:
  "(record_ok d \<longrightarrow>
      (\<exists>r. calculate_alt_metric row (alt_tags d) = Inr r)
      \<and> (\<exists>r. calculate_hyperlinks_metric row (href_tags d) = Inr r)
      \<and> (\<exists>r. calculate_label_input_metric row (label_tags d) (input_tags d) = Inr r))
   \<and> (list_all (has_tag ''img'') (pre @ t # post) \<and> attr_of t ''img'' ''alt'' = None \<longrightarrow>
      (\<exists>k. alt_loop (pre @ post) 0 = Inr k
         \<and> calculate_alt_metric row (pre @ t # post)
             = Inr (row @ [Num (rat_of_nat k / rat_of_nat (length pre + length post + 1))])))
   \<and> (list_all (has_tag ''input'') (ipre @ s # ipost) \<and> list_all (has_tag ''label'') labels
       \<and> attr_of s ''input'' ''id'' = None \<longrightarrow>
      (\<exists>k. input_loop labels (ipre @ ipost) 0 = Inr k
         \<and> calculate_label_input_metric row labels (ipre @ s # ipost)
             = Inr (row @ [Num (rat_of_nat k / rat_of_nat (length ipre + length ipost + 1))])))"
proof (intro conjI impI)
  assume ok: "record_ok d"
  then show "\<exists>r. calculate_alt_metric row (alt_tags d) = Inr r"
    using alt_metric_ok [of "alt_tags d" row] by (auto simp: record_ok_def)
  from ok show "\<exists>r. calculate_hyperlinks_metric row (href_tags d) = Inr r"
    using hyperlinks_metric_ok [of "href_tags d" row] by (auto simp: record_ok_def)
  from ok show "\<exists>r. calculate_label_input_metric row (label_tags d) (input_tags d) = Inr r"
    using label_input_metric_ok [of "input_tags d" "label_tags d" row]
    by (auto simp: record_ok_def)
next
  assume "list_all (has_tag ''img'') (pre @ t # post) \<and> attr_of t ''img'' ''alt'' = None"
  then show "\<exists>k. alt_loop (pre @ post) 0 = Inr k
         \<and> calculate_alt_metric row (pre @ t # post)
             = Inr (row @ [Num (rat_of_nat k / rat_of_nat (length pre + length post + 1))])"
    by (intro alt_metric_without_alt) simp_all
next
  assume "list_all (has_tag ''input'') (ipre @ s # ipost) \<and> list_all (has_tag ''label'') labels
       \<and> attr_of s ''input'' ''id'' = None"
  then show "\<exists>k. input_loop labels (ipre @ ipost) 0 = Inr k
         \<and> calculate_label_input_metric row labels (ipre @ s # ipost)
             = Inr (row @ [Num (rat_of_nat k / rat_of_nat (length ipre + length ipost + 1))])"
    by (intro label_input_metric_without_id) simp_all
qed

theorem attribute_absence_local_witness:
  "record_ok site_mixed
   \<and> (\<exists>r. calculate_label_input_metric [] (label_tags site_mixed) (input_tags site_mixed)
            = Inr r)
   \<and> list_all (has_tag ''img'') ([img_photo] @ img_no_alt # [img_empty_alt])
   \<and> attr_of img_no_alt ''img'' ''alt'' = None
   \<and> alt_loop ([img_photo] @ [img_empty_alt]) 0 = Inr 1
   \<and> calculate_alt_metric [] ([img_photo] @ img_no_alt # [img_empty_alt]) = Inr [Num (1 / 3)]
   \<and> list_all (has_tag ''input'') ([input_x] @ input_no_id # [input_x_hidden])
   \<and> list_all (has_tag ''label'') [label_x]
   \<and> attr_of input_no_id ''input'' ''id'' = None
   \<and> input_loop [label_x] ([input_x] @ [input_x_hidden]) 0 = Inr 1
   \<and> calculate_label_input_metric [] [label_x] ([input_x] @ input_no_id # [input_x_hidden])
       = Inr [Num (1 / 3)]"
proof -
  have h: "record_ok site_mixed"
    by (simp add: record_ok_def site_defs sample_defs access_defs has_href_def)
  have i: "list_all (has_tag ''img'') ([img_photo] @ img_no_alt # [img_empty_alt])
           \<and> attr_of img_no_alt ''img'' ''alt'' = None"
    by (simp add: sample_defs access_defs)
  have j: "list_all (has_tag ''input'') ([input_x] @ input_no_id # [input_x_hidden])
           \<and> list_all (has_tag ''label'') [label_x]
           \<and> attr_of input_no_id ''input'' ''id'' = None"
    by (simp add: sample_defs access_defs)
  have a: "alt_loop ([img_photo] @ [img_empty_alt]) 0 = Inr 1"
    by (simp add: sample_defs access_defs metric_defs)
  have b: "input_loop [label_x] ([input_x] @ [input_x_hidden]) 0 = Inr 1"
    by (simp add: sample_defs access_defs metric_defs)
  from h i j a b
    attribute_absence_local [of site_mixed "[]" "[img_photo]" img_no_alt "[img_empty_alt]"
      "[input_x]" input_no_id "[input_x_hidden]" "[label_x]"]
  show ?thesis
    by auto
qed

text \<open>
  The claim as stated fails for href: \<open><a>home</a>\<close> is an \<open>a\<close> element without the
  attribute, and HAM raises KeyError on it.
\<close>

theorem missing_href_raises:
  "has_tag ''a'' a_no_href \<and> attr_of a_no_href ''a'' ''href'' = None
   \<and> calculate_hyperlinks_metric [] [a_no_href] = Inl KeyError"
  by (simp add: sample_defs access_defs metric_defs)

subsection \<open>The results table\<close>

lemma list_all_take: "list_all P xs \<Longrightarrow> list_all P (take k xs)"
  by (auto simp: list_all_iff dest: in_set_takeD)

text \<open>
  C8. For N stored records (each satisfying the invariant of the data model) the run
  appends N rows to the table, in the order of the records; the row of a record is its
  name, the three metric values of its lists and the lookup string. After the first k
  records the table holds the first k of these rows and the buffer is empty again.
\<close>

theorem results_table_round_trip:
  "list_all record_ok ds \<Longrightarrow>
   \<exists>rows. init web csv ds = Inr \<lparr>row_data = [], results_csv = csv @ rows\<rparr>
     \<and> length rows = length ds
     \<and> list_all2 (row_of web) ds rows
     \<and> (\<forall>k\<le>length ds. init web csv (take k ds)
            = Inr \<lparr>row_data = [], results_csv = csv @ take k rows\<rparr>)"
proof -
  assume ok: "list_all record_ok ds"
  let ?rows = "map (result_row web) ds"
  have "init web csv ds = Inr \<lparr>row_data = [], results_csv = csv @ ?rows\<rparr>"
    using ok by (simp add: init_def run_rows)
  moreover have "length ?rows = length ds"
    by simp
  moreover have "list_all2 (row_of web) ds ?rows"
    using ok by (rule rows_of_records)
  moreover have "init web csv (take k ds)
      = Inr \<lparr>row_data = [], results_csv = csv @ take k ?rows\<rparr>" for k
    using list_all_take [OF ok, of k] by (simp add: init_def run_rows take_map)
  ultimately show ?thesis
    by blast
qed

theorem results_table_round_trip_witness:
  "list_all record_ok [site_full, site_empty]
   \<and> (\<exists>rows. init web_down [] [site_full, site_empty]
                = Inr \<lparr>row_data = [], results_csv = [] @ rows\<rparr>
         \<and> length rows = length [site_full, site_empty]
         \<and> list_all2 (row_of web_down) [site_full, site_empty] rows)
   \<and> init web_down [] [site_full, site_empty]
       = Inr \<lparr>row_data = [],
              results_csv =
                [[Str ''full.example'', Num 1, Num 1, Num 1, Str ''-1%''],
                 [Str ''empty.example'', Str ''No Data'', Str ''No Data'', Str ''No Data'',
                  Str ''-1%'']]\<rparr>"
proof -
  have h: "list_all record_ok [site_full, site_empty]"
    by (simp add: record_ok_def site_defs sample_defs access_defs has_href_def)
  have v: "init web_down [] [site_full, site_empty]
       = Inr \<lparr>row_data = [],
              results_csv =
                [[Str ''full.example'', Num 1, Num 1, Num 1, Str ''-1%''],
                 [Str ''empty.example'', Str ''No Data'', Str ''No Data'', Str ''No Data'',
                  Str ''-1%'']]\<rparr>"
    by (simp add: init_def process_record_def build_row_def site_defs sample_defs access_defs
          metric_defs)
  from results_table_round_trip [OF h, of web_down "[]"] h v show ?thesis
    by blast
qed

lemma accessibility_percent_found:
  "first_source (web url) = Inr (Some t) \<Longrightarrow>
   get_accessibility_percent web row url = Inr (row @ [Str t])"
  by (simp add: get_accessibility_percent_def first_attempt_def div_text_def)

lemma accessibility_percent_retry_fails:
  "first_source (web url) = Inr None \<Longrightarrow> second_source (web url) = Inl e \<Longrightarrow>
   get_accessibility_percent web row url = Inr (row @ [Str ''-1%''])"
  by (simp add: get_accessibility_percent_def first_attempt_def second_attempt_def
        div_text_def)

lemma accessibility_percent_retry_found:
  "first_source (web url) = Inr None \<Longrightarrow> second_source (web url) = Inr (Some t) \<Longrightarrow>
   get_accessibility_percent web row url = Inr (row @ [Str t])"
  by (simp add: get_accessibility_percent_def first_attempt_def second_attempt_def
        div_text_def)

lemma accessibility_percent_no_div:
  "first_source (web url) = Inr None \<Longrightarrow> second_source (web url) = Inr None \<Longrightarrow>
   get_accessibility_percent web row url = Inr (row @ [Str ''-1%''])"
  by (simp add: get_accessibility_percent_def first_attempt_def second_attempt_def
        div_text_def)

text \<open>
  C10. The lookup never raises and always appends exactly one string: "-1%" when the
  browser fails before the first page is read, when the page has no div and the browser
  fails in the second attempt, and when neither page has the div; the text of the div
  otherwise. A metric method that returns has appended exactly one value. So for a record
  satisfying the invariant of the data model the row that is written has five cells.
\<close>

theorem row_width:
  "(\<exists>t. get_accessibility_percent web row url = Inr (row @ [Str t]))
   \<and> (first_source (web url) = Inl e \<longrightarrow>
        get_accessibility_percent web row url = Inr (row @ [Str ''-1%'']))
   \<and> (first_source (web url) = Inr (Some t1) \<longrightarrow>
        get_accessibility_percent web row url = Inr (row @ [Str t1]))
   \<and> (first_source (web url) = Inr None \<and> second_source (web url) = Inl e2 \<longrightarrow>
        get_accessibility_percent web row url = Inr (row @ [Str ''-1%'']))
   \<and> (first_source (web url) = Inr None \<and> second_source (web url) = Inr (Some t2) \<longrightarrow>
        get_accessibility_percent web row url = Inr (row @ [Str t2]))
   \<and> (first_source (web url) = Inr None \<and> second_source (web url) = Inr None \<longrightarrow>
        get_accessibility_percent web row url = Inr (row @ [Str ''-1%'']))
   \<and> (calculate_alt_metric row imgs = Inr r1 \<longrightarrow> length r1 = length row + 1)
   \<and> (calculate_hyperlinks_metric row hrefs = Inr r2 \<longrightarrow> length r2 = length row + 1)
   \<and> (calculate_label_input_metric row labels inputs = Inr r3 \<longrightarrow> length r3 = length row + 1)
   \<and> (record_ok d \<longrightarrow>
        (\<exists>r. build_row web [] d = Inr r \<and> length r = 5
           \<and> process_record web \<lparr>row_data = [], results_csv = csv\<rparr> d
               = Inr \<lparr>row_data = [], results_csv = csv @ [r]\<rparr>))"
proof (intro conjI impI)
  show "\<exists>t. get_accessibility_percent web row url = Inr (row @ [Str t])"
    by (rule accessibility_percent_total)
  show "get_accessibility_percent web row url = Inr (row @ [Str ''-1%''])"
    if "first_source (web url) = Inl e"
    using that by (rule accessibility_percent_browser_fails)
  show "get_accessibility_percent web row url = Inr (row @ [Str t1])"
    if "first_source (web url) = Inr (Some t1)"
    using that by (rule accessibility_percent_found)
  show "get_accessibility_percent web row url = Inr (row @ [Str ''-1%''])"
    if "first_source (web url) = Inr None \<and> second_source (web url) = Inl e2"
    using that by (intro accessibility_percent_retry_fails) simp_all
  show "get_accessibility_percent web row url = Inr (row @ [Str t2])"
    if "first_source (web url) = Inr None \<and> second_source (web url) = Inr (Some t2)"
    using that by (intro accessibility_percent_retry_found) simp_all
  show "get_accessibility_percent web row url = Inr (row @ [Str ''-1%''])"
    if "first_source (web url) = Inr None \<and> second_source (web url) = Inr None"
    using that by (intro accessibility_percent_no_div) simp_all
  show "length r1 = length row + 1" if "calculate_alt_metric row imgs = Inr r1"
    using that by (auto simp: calculate_alt_metric_def split: if_splits sum.splits)
  show "length r2 = length row + 1" if "calculate_hyperlinks_metric row hrefs = Inr r2"
    using that by (auto simp: calculate_hyperlinks_metric_def split: if_splits sum.splits)
  show "length r3 = length row + 1"
    if "calculate_label_input_metric row labels inputs = Inr r3"
    using that
    by (auto simp: calculate_label_input_metric_def label_input_count_def
          split: if_splits sum.splits bool.splits)
  show "\<exists>r. build_row web [] d = Inr r \<and> length r = 5
           \<and> process_record web \<lparr>row_data = [], results_csv = csv\<rparr> d
               = Inr \<lparr>row_data = [], results_csv = csv @ [r]\<rparr>"
    if "record_ok d"
  proof -
    from build_row_ok [OF that] obtain r where r: "build_row web [] d = Inr r"
      and "row_of web d r"
      by blast
    then have "length r = 5"
      by (simp add: row_of_length)
    with r show ?thesis
      by (simp add: process_record_def)
  qed
qed

theorem row_width_witness:
  "first_source (web_down ''mixed.example'') = Inl WebDriverException
   \<and> get_accessibility_percent web_down [] ''mixed.example'' = Inr [Str ''-1%'']
   \<and> first_source (web_up ''mixed.example'') = Inr (Some ''87%'')
   \<and> get_accessibility_percent web_up [] ''mixed.example'' = Inr [Str ''87%'']
   \<and> first_source (web_retry_down ''mixed.example'') = Inr None
   \<and> second_source (web_retry_down ''mixed.example'') = Inl WebDriverException
   \<and> get_accessibility_percent web_retry_down [] ''mixed.example'' = Inr [Str ''-1%'']
   \<and> first_source (web_retry_up ''mixed.example'') = Inr None
   \<and> second_source (web_retry_up ''mixed.example'') = Inr (Some ''64%'')
   \<and> get_accessibility_percent web_retry_up [] ''mixed.example'' = Inr [Str ''64%'']
   \<and> first_source (web_no_div ''mixed.example'') = Inr None
   \<and> second_source (web_no_div ''mixed.example'') = Inr None
   \<and> get_accessibility_percent web_no_div [] ''mixed.example'' = Inr [Str ''-1%'']
   \<and> calculate_alt_metric [] [img_photo] = Inr [Num 1]
   \<and> calculate_hyperlinks_metric [] [a_shoes] = Inr [Num 1]
   \<and> calculate_label_input_metric [] [label_x_field] [input_x] = Inr [Num 1]
   \<and> length [Num 1] = length ([] :: cell list) + 1
   \<and> record_ok site_mixed
   \<and> build_row web_down [] site_mixed
       = Inr [Str ''mixed.example'', Num (1 / 4), Num (1 / 2), Num (1 / 3), Str ''-1%'']
   \<and> (\<exists>r. build_row web_down [] site_mixed = Inr r \<and> length r = 5
         \<and> process_record web_down \<lparr>row_data = [], results_csv = []\<rparr> site_mixed
             = Inr \<lparr>row_data = [], results_csv = [] @ [r]\<rparr>)"
proof -
  let ?u = "''mixed.example''"
  have h: "record_ok site_mixed"
    by (simp add: record_ok_def site_defs sample_defs access_defs has_href_def)
  have f1: "first_source (web_down ?u) = Inl WebDriverException"
    by (simp add: site_defs)
  have f2: "first_source (web_up ?u) = Inr (Some ''87%'')"
    by (simp add: site_defs)
  have f3: "first_source (web_retry_down ?u) = Inr None
            \<and> second_source (web_retry_down ?u) = Inl WebDriverException"
    by (simp add: site_defs)
  have f4: "first_source (web_retry_up ?u) = Inr None
            \<and> second_source (web_retry_up ?u) = Inr (Some ''64%'')"
    by (simp add: site_defs)
  have f5: "first_source (web_no_div ?u) = Inr None \<and> second_source (web_no_div ?u) = Inr None"
    by (simp add: site_defs)
  have a: "calculate_alt_metric [] [img_photo] = Inr [Num 1]"
    by (simp add: sample_defs access_defs metric_defs)
  have b: "calculate_hyperlinks_metric [] [a_shoes] = Inr [Num 1]"
    by (simp add: sample_defs access_defs metric_defs)
  have c: "calculate_label_input_metric [] [label_x_field] [input_x] = Inr [Num 1]"
    by (simp add: sample_defs access_defs metric_defs)
  have r: "build_row web_down [] site_mixed
       = Inr [Str ''mixed.example'', Num (1 / 4), Num (1 / 2), Num (1 / 3), Str ''-1%'']"
    by (simp add: build_row_def site_defs sample_defs access_defs metric_defs)
  note w = row_width [where row = "[]" and url = ?u and e = WebDriverException
      and ?e2.0 = WebDriverException and ?t1.0 = "''87%''" and ?t2.0 = "''64%''"
      and imgs = "[img_photo]" and ?r1.0 = "[Num 1]" and hrefs = "[a_shoes]"
      and ?r2.0 = "[Num 1]" and labels = "[label_x_field]" and inputs = "[input_x]"
      and ?r3.0 = "[Num 1]" and d = site_mixed and csv = "[]"]
  from h f1 f2 f3 f4 f5 a b c r
    w [of web_down] w [of web_up] w [of web_retry_down] w [of web_retry_up] w [of web_no_div]
  show ?thesis
    by simp
qed

end
